theory Spec2Isabelle
  imports Main "HOL-Library.Sublist" "HOL-Library.Word"
begin

unbundle bit_operations_syntax

section \<open>sam\_bam\_verify: a shallow embedding of \<^verbatim>\<open>main\<close>\<close>

text \<open>
  The program is one C function, \<^verbatim>\<open>main\<close> of \<^verbatim>\<open>sam_bam_verify.c\<close>. Each phase of
  it is a definition below, named after what it does and tagged with the source lines it
  embeds. C strings are \<^typ>\<open>string\<close> (the bytes before the terminating NUL), a pointer
  that may be NULL is a \<^typ>\<open>string option\<close>, the two parallel arrays
  \<^verbatim>\<open>target_name[]\<close> and \<^verbatim>\<open>target_len[]\<close> of \<^verbatim>\<open>n_targets\<close> cells are one list of
  reference entries, and the two streams \<^verbatim>\<open>stdout\<close> and \<^verbatim>\<open>stderr\<close> are lists with one
  element for each \<^verbatim>\<open>printf\<close>/\<^verbatim>\<open>fprintf\<close> call.
\<close>

subsection \<open>The C string functions the program calls\<close>

text \<open>
  \<^verbatim>\<open>strstr(haystack, needle)\<close>: the position of the first occurrence of the needle, or
  \<open>None\<close> for the NULL result. The pointer comparison \<^verbatim>\<open>target == strstr(target, "chr")\<close>
  of line 50 is the test for position 0.
\<close>

fun strstr :: "string \<Rightarrow> string \<Rightarrow> nat option" where
  "strstr [] needle = (if needle = [] then Some 0 else None)"
| "strstr (c # cs) needle =
     (if prefix needle (c # cs) then Some 0 else map_option Suc (strstr cs needle))"

text \<open>
  \<^verbatim>\<open>tolower\<close> in the C locale, and the two case-insensitive functions built on it:
  \<^verbatim>\<open>strcasecmp(a, b) == 0\<close> and \<^verbatim>\<open>strcasestr(haystack, needle)\<close>.
\<close>

definition tolower :: "char \<Rightarrow> char" where
  "tolower c =
     (case map_of (zip ''ABCDEFGHIJKLMNOPQRSTUVWXYZ'' ''abcdefghijklmnopqrstuvwxyz'') c of
        Some l \<Rightarrow> l
      | None \<Rightarrow> c)"

definition strcasecmp_eq :: "string \<Rightarrow> string \<Rightarrow> bool" where
  "strcasecmp_eq a b = (map tolower a = map tolower b)"

definition strcasestr :: "string \<Rightarrow> string \<Rightarrow> nat option" where
  "strcasestr haystack needle = strstr (map tolower haystack) (map tolower needle)"

text \<open>
  The conversions \<^verbatim>\<open>%d\<close> and \<^verbatim>\<open>%lld\<close> of \<^verbatim>\<open>printf\<close>: a decimal numeral, with a
  minus sign for a negative value.
\<close>

fun dec_nat :: "nat \<Rightarrow> string" where
  "dec_nat n =
     (if n < 10 then [''0123456789'' ! n]
      else dec_nat (n div 10) @ [''0123456789'' ! (n mod 10)])"

declare dec_nat.simps [simp del]

definition dec_int :: "int \<Rightarrow> string" where
  "dec_int i = (if i < 0 then CHR ''-'' # dec_nat (nat (- i)) else dec_nat (nat i))"

subsection \<open>The header\<close>

text \<open>
  Modelled from the spec: \<^verbatim>\<open>bam_header_t\<close> is declared by the alignment library's own
  header file, which \<^verbatim>\<open>sam_bam_verify.h\<close> includes and which is not part of this repository.
  The program reads and writes its fields \<^verbatim>\<open>n_targets\<close>, \<^verbatim>\<open>target_name\<close>,
  \<^verbatim>\<open>target_len\<close>, \<^verbatim>\<open>text\<close> (here \<open>hdr_text\<close>) and \<^verbatim>\<open>l_text\<close>; the spec gives a reference entry as a
  name and an integer length, and the text as a string that may be absent. The library
  keeps a length in 32 bits without a sign (\<^verbatim>\<open>uint32_t\<close>), so the lengths a header can
  arrive with are those from 0 up to \<open>2^32 - 1\<close>; the model keeps them as integers and
  writes the 32 bits out where the program reads them as something else (the \<^verbatim>\<open>%d\<close> of
  line 71).
\<close>

record ref_entry =
  target_name :: string
  target_len :: int

record bam_header_t =
  targets :: "ref_entry list"
  hdr_text :: "string option"
  l_text :: int

definition n_targets :: "bam_header_t \<Rightarrow> nat" where
  "n_targets h = length (targets h)"

subsection \<open>Lines 48--60: the table normalizer\<close>

text \<open>
  The body of the loop for one entry. It returns the entry and what it printed on
  \<^verbatim>\<open>stderr\<close>; \<open>debug\<close> is \<^verbatim>\<open>debug_level & 1\<close>.
\<close>

definition strip_chr :: "bool \<Rightarrow> ref_entry \<Rightarrow> ref_entry \<times> string list" where
  "strip_chr debug e =
     (let target = target_name e in
      if strstr target ''chr'' = Some 0 then
        if length target > 3 \<and> target_len e > 3 then
          let new_text = drop 3 target in
          (e\<lparr>target_name := new_text, target_len := int (length new_text)\<rparr>,
           if debug
           then [''Removing 'chr' prefix. '' @ target @ '' becomes '' @ drop 3 target @ [CHR 0x0A]]
           else [])
        else (e, [])
      else (e, []))"

text \<open>The loop \<^verbatim>\<open>for (i = 0; i < header->n_targets; i++)\<close>, updating cell \<open>i\<close> in place.\<close>

function normalize_loop ::
  "bool \<Rightarrow> nat \<Rightarrow> ref_entry list \<Rightarrow> string list \<Rightarrow> ref_entry list \<times> string list" where
  "normalize_loop debug i es err =
     (if i < length es then
        (let (e', msgs) = strip_chr debug (es ! i)
         in normalize_loop debug (i + 1) (es[i := e']) (err @ msgs))
      else (es, err))"
  by pat_completeness auto
termination
  by (relation "measure (\<lambda>(debug, i, es, err). length es - i)") auto

declare normalize_loop.simps [simp del]

definition normalize_table :: "bool \<Rightarrow> bam_header_t \<Rightarrow> bam_header_t \<times> string list" where
  "normalize_table debug h =
     (let (es, err) = normalize_loop debug 0 (targets h) []
      in (h\<lparr>targets := es\<rparr>, err))"

subsection \<open>Lines 64--77: the header text synthesizer\<close>

abbreviation TAB :: char where
  "TAB \<equiv> CHR 0x09"

abbreviation NL :: char where
  "NL \<equiv> CHR 0x0A"

text \<open>
  What \<^verbatim>\<open>%d\<close> makes of a 32-bit argument: it reads the 32 bits as an \<^verbatim>\<open>int\<close> in two's
  complement, so a length of \<open>2^31\<close> or more comes out negative.
\<close>

definition as_int32 :: "int \<Rightarrow> int" where
  "as_int32 x = (x + 2 ^ 31) mod 2 ^ 32 - 2 ^ 31"

text \<open>The format \<^verbatim>\<open>"@SQ\tSN:%s\tLN:%d\n"\<close> of line 71, applied to one entry.\<close>

definition sq_line :: "ref_entry \<Rightarrow> string" where
  "sq_line e =
     ''@SQ'' @ [TAB] @ ''SN:'' @ target_name e @ [TAB] @ ''LN:'' @
     dec_int (as_int32 (target_len e)) @ [NL]"

text \<open>
  The loop of lines 70--76: \<open>buf1\<close> is the line of entry \<open>i\<close>, \<open>buf2\<close> the text so far
  followed by \<open>buf1\<close>, and the text becomes a copy of \<open>buf2\<close>. A failing \<^verbatim>\<open>asprintf\<close>
  (the allocator is out of memory) is outside the model.
\<close>

function synth_loop :: "nat \<Rightarrow> ref_entry list \<Rightarrow> string \<Rightarrow> string" where
  "synth_loop i es txt =
     (if i < length es then
        (let buf1 = sq_line (es ! i); buf2 = txt @ buf1
         in synth_loop (i + 1) es buf2)
      else txt)"
  by pat_completeness auto
termination
  by (relation "measure (\<lambda>(i, es, txt). length es - i)") auto

declare synth_loop.simps [simp del]

text \<open>
  The guard of line 64 and the regeneration it protects. The second component is what
  the step prints on \<^verbatim>\<open>stderr\<close>.
\<close>

definition regenerating :: string where
  "regenerating = ''No header found, regenerating.'' @ [NL]"

definition synthesize :: "bam_header_t \<Rightarrow> bam_header_t \<times> string list" where
  "synthesize h =
     (if (case hdr_text h of None \<Rightarrow> True | Some t \<Rightarrow> length t = 0) \<and> n_targets h > 0
      then (h\<lparr>hdr_text := Some (synth_loop 0 (targets h) [])\<rparr>, [regenerating])
      else (h, []))"

subsection \<open>Lines 78--90: the header text rewriter\<close>

text \<open>
  Line 80 is \<^verbatim>\<open>strcpy(replace_here + 3, replace_here + 6)\<close>: source and destination lie
  in the same string \<open>t\<close>, the destination at position \<open>d\<close>, the source at position \<open>s\<close>,
  with \<open>d \<le> s \<le> length t\<close>. The call copies the \<open>length t - s\<close> bytes from \<open>s\<close> on and
  the terminating NUL. When those \<open>length t - s + 1\<close> bytes fit below the source (no more
  than \<open>s - d\<close> of them) the two regions are apart and the C standard fixes the result:
  the bytes from \<open>s\<close> on now stand at \<open>d\<close>. That is also what \<^verbatim>\<open>memmove\<close> would leave in
  every case.
\<close>

definition memmove_within :: "string \<Rightarrow> nat \<Rightarrow> nat \<Rightarrow> string" where
  "memmove_within t d s = take d t @ drop s t"

text \<open>
  When the regions overlap the C standard says nothing about \<^verbatim>\<open>strcpy\<close>, and what the
  string holds afterwards is up to the C library the program runs with. The model takes
  that as a parameter \<open>overlapping\<close>: the string the library leaves, given the string and
  the two positions.
\<close>

type_synonym libc_copy = "string \<Rightarrow> nat \<Rightarrow> nat \<Rightarrow> string"

definition strcpy_within :: "libc_copy \<Rightarrow> string \<Rightarrow> nat \<Rightarrow> nat \<Rightarrow> string" where
  "strcpy_within overlapping t d s =
     (if length t - s + 1 \<le> s - d then take d t @ drop s t else overlapping t d s)"

text \<open>
  The loop of lines 79--81. Whether it ends depends on what the copies leave, so its
  result is optional: \<open>None\<close> says that the loop never returns.
\<close>

partial_function (option) sn_chr_loop :: "libc_copy \<Rightarrow> string \<Rightarrow> string option" where
  "sn_chr_loop overlapping new_text =
     (case strstr new_text ''SN:chr'' of
        None \<Rightarrow> Some new_text
      | Some replace_here \<Rightarrow>
          sn_chr_loop overlapping
            (strcpy_within overlapping new_text (replace_here + 3) (replace_here + 6)))"

text \<open>
  \<^verbatim>\<open>strdup(header->text)\<close> of line 78 reads through the pointer: with a NULL text the
  program faults there.
\<close>

datatype fault = NullDereference

text \<open>
  Lines 78--90. The first component is \<open>None\<close> when the loop never returns, a fault, or
  the header with its new text and the length of that text.
\<close>

definition rewrite_header ::
  "libc_copy \<Rightarrow> bool \<Rightarrow> bam_header_t \<Rightarrow> (fault + bam_header_t) option \<times> string list" where
  "rewrite_header overlapping debug h =
     (case hdr_text h of
        None \<Rightarrow> (Some (Inl NullDereference), [])
      | Some t \<Rightarrow>
          (case sn_chr_loop overlapping t of
             None \<Rightarrow> (None, [])
           | Some new_text \<Rightarrow>
               (Some (Inr (h\<lparr>hdr_text := Some new_text, l_text := int (length new_text)\<rparr>)),
                if debug then [''New header:'' @ [NL] @ new_text] else [])))"

text \<open>Lines 48--90 in sequence: what happens to the header between the two opens.\<close>

definition header_phase ::
  "libc_copy \<Rightarrow> bool \<Rightarrow> bam_header_t \<Rightarrow> (fault + bam_header_t) option \<times> string list" where
  "header_phase overlapping debug h0 =
     (let (h1, err1) = normalize_table debug h0;
          (h2, err2) = synthesize h1;
          (r, err3) = rewrite_header overlapping debug h2
      in (r, err1 @ err2 @ err3))"

subsection \<open>Lines 31--32: the container format of the input\<close>

text \<open>
  \<open>in_mode\<close> starts as \<^verbatim>\<open>"r"\<close>; \<^verbatim>\<open>strcat(in_mode, "b")\<close> selects the binary container
  and drops the auxiliary reference path.
\<close>

definition select_mode :: "string \<Rightarrow> string option \<Rightarrow> string \<times> string option" where
  "select_mode path aux =
     (case strcasestr path ''.bam'' of
        None \<Rightarrow> (''r'', aux)
      | Some extension \<Rightarrow>
          if strcasecmp_eq (drop extension path) ''.bam'' then (''r'' @ ''b'', None)
          else (''r'', aux))"

subsection \<open>Lines 98--102: the record stream\<close>

text \<open>
  Modelled from the spec: the alignment record \<^verbatim>\<open>bam1_t\<close>, the macro \<^verbatim>\<open>BAM_FUNMAP\<close> and
  the calls \<^verbatim>\<open>samopen\<close>, \<^verbatim>\<open>samfaipath\<close>, \<^verbatim>\<open>samread\<close>, \<^verbatim>\<open>bam_write1\<close> and \<^verbatim>\<open>samclose\<close>
  belong to the alignment library, which is not part of this repository. The spec gives a
  record as an opaque payload with a flags field, one bit of which says "segment
  unmapped" (bit 2 in the container format), and the containers as a capability
  interface: open for reading, open for writing with a header, read the next record or
  the end of the stream, write a record, close.
\<close>

record bam1_t =
  flag :: "16 word"
  payload :: "8 word list"

definition BAM_FUNMAP :: "16 word" where
  "BAM_FUNMAP = 4"

text \<open>
  An input container that was opened holds the records not read yet: \<^verbatim>\<open>samread\<close>
  returns the next one, or a negative number (\<open>None\<close>) at the end of the stream.
  \<^verbatim>\<open>bam_write1\<close> appends a record to what the output container holds.
\<close>

definition samread :: "bam1_t list \<Rightarrow> (bam1_t \<times> bam1_t list) option" where
  "samread inp = (case inp of [] \<Rightarrow> None | b # rest \<Rightarrow> Some (b, rest))"

definition bam_write1 :: "bam1_t list \<Rightarrow> bam1_t \<Rightarrow> bam1_t list" where
  "bam_write1 out b = out @ [b]"

text \<open>
  The loop \<^verbatim>\<open>while (samread(infp, alignment) >= 0)\<close>. Its state is the input not read
  yet, \<open>mapped_read_count\<close> (a \<^verbatim>\<open>long long\<close>: no stream is long enough to overflow it) and
  the records written so far.
\<close>

function stream_loop :: "bam1_t list \<Rightarrow> int \<Rightarrow> bam1_t list \<Rightarrow> int \<times> bam1_t list" where
  "stream_loop inp mapped_read_count out =
     (case samread inp of
        None \<Rightarrow> (mapped_read_count, out)
      | Some (alignment, rest) \<Rightarrow>
          stream_loop rest
            (if flag alignment AND BAM_FUNMAP = 0 then mapped_read_count + 1
             else mapped_read_count)
            (bam_write1 out alignment))"
  by pat_completeness auto
termination
  by (relation "measure (\<lambda>(inp, c, out). length inp)")
     (auto simp: samread_def split: list.splits)

declare stream_loop.simps [simp del]

subsection \<open>The whole run\<close>

text \<open>
  What the program meets outside itself: the auxiliary path \<^verbatim>\<open>samfaipath\<close> finds, what
  \<^verbatim>\<open>samopen\<close> for reading returns for a path, a mode and an auxiliary path (NULL, or a
  container with its header and its records), whether \<^verbatim>\<open>samopen\<close> for writing succeeds
  on a path, and what the C library's \<^verbatim>\<open>strcpy\<close> leaves when its regions overlap.
\<close>

record world =
  samfaipath :: "string \<Rightarrow> string option"
  samopen_r :: "string \<Rightarrow> string \<Rightarrow> string option \<Rightarrow> (bam_header_t \<times> bam1_t list) option"
  samopen_wb :: "string \<Rightarrow> bool"
  strcpy_overlap :: libc_copy

datatype handle = Unopened | Opened | Closed

datatype ending = Returned int | Faulted fault | NeverReturns

text \<open>
  What a run leaves behind: how it ended (\<open>NeverReturns\<close>: it did not, the loop of lines
  79--81 goes on for ever), the two output streams, the state of the two container
  handles at that moment, and the header and records the output container received.
\<close>

record run =
  ending :: ending
  stdout :: "string list"
  stderr :: "string list"
  infp :: handle
  outfp :: handle
  out_header :: "bam_header_t option"
  out_records :: "bam1_t list"

definition show_usage :: "string list" where
  "show_usage =
     [''Usage:'' @ [NL],
      ''  ./sam_bam_verify <input.sam|input.bam> <output.bam> [-v]'' @ [NL],
      ''    -v   Verbose output (to stderr).'' @ [NL]]"

text \<open>Lines 40--110, once the input container is open.\<close>

definition transcode ::
  "world \<Rightarrow> string \<Rightarrow> bool \<Rightarrow> bam_header_t \<Rightarrow> bam1_t list \<Rightarrow> run" where
  "transcode w out_path debug h0 recs =
     (case header_phase (strcpy_overlap w) debug h0 of
        (None, err) \<Rightarrow>
          \<lparr>ending = NeverReturns, stdout = [], stderr = err, infp = Opened,
           outfp = Unopened, out_header = None, out_records = []\<rparr>
      | (Some (Inl f), err) \<Rightarrow>
          \<lparr>ending = Faulted f, stdout = [], stderr = err, infp = Opened, outfp = Unopened,
           out_header = None, out_records = []\<rparr>
      | (Some (Inr header), err) \<Rightarrow>
          if \<not> samopen_wb w out_path then
            \<lparr>ending = Returned 1, stdout = [],
             stderr = err @ [''Failed to open output file '' @ out_path @ [NL]],
             infp = Opened, outfp = Unopened, out_header = None, out_records = []\<rparr>
          else
            (let (mapped_read_count, written) = stream_loop recs 0 []
             in \<lparr>ending = Returned 0,
                 stdout = [''Mapped reads: '' @ dec_int mapped_read_count @ [NL]],
                 stderr = err, infp = Closed, outfp = Closed,
                 out_header = Some header, out_records = written\<rparr>))"

text \<open>
  Lines 22--34: the auxiliary path (a third argument other than \<^verbatim>\<open>-v\<close>), the mode, and
  the call that opens the input. \<open>argv\<close> holds the program name first, as in C.
\<close>

definition open_input :: "world \<Rightarrow> string list \<Rightarrow> (bam_header_t \<times> bam1_t list) option" where
  "open_input w argv =
     (let argc = length argv;
          aux = (if argc \<ge> 4 \<and> argv ! 3 \<noteq> ''-v'' then samfaipath w (argv ! 3) else None);
          (in_mode, aux') = select_mode (argv ! 1) aux
      in samopen_r w (argv ! 1) in_mode aux')"

text \<open>Lines 28--30: \<^verbatim>\<open>debug_level\<close> is 1 when the last argument is \<^verbatim>\<open>-v\<close>.\<close>

definition verbose :: "string list \<Rightarrow> bool" where
  "verbose argv = (argv ! (length argv - 1) = ''-v'')"

text \<open>Lines 5--38, then the rest.\<close>

definition main :: "world \<Rightarrow> string list \<Rightarrow> run" where
  "main w argv =
     (let argc = length argv in
      if argc < 3 then
        \<lparr>ending = Returned 1, stdout = [], stderr = show_usage, infp = Unopened,
         outfp = Unopened, out_header = None, out_records = []\<rparr>
      else if argv ! 1 = argv ! 2 then
        \<lparr>ending = Returned 1, stdout = [],
         stderr = (''Can't read and write the same file.'' @ [NL]) # show_usage,
         infp = Unopened, outfp = Unopened, out_header = None, out_records = []\<rparr>
      else
        (case open_input w argv of
           None \<Rightarrow>
             \<lparr>ending = Returned 1, stdout = [],
              stderr = [''Failed to open input file '' @ argv ! 1 @ [NL]],
              infp = Unopened, outfp = Unopened, out_header = None, out_records = []\<rparr>
         | Some (h0, recs) \<Rightarrow> transcode w (argv ! 2) (verbose argv) h0 recs))"

subsection \<open>The rewrite, in the words of the specification\<close>

text \<open>
  One removal as the specification words it: somewhere in the text stands \<open>SN:chr\<close>, and
  the three characters \<open>chr\<close> after that \<open>SN:\<close> go. The relation does not say which
  occurrence is taken; the loop of the program takes the first.
\<close>

inductive removes_chr :: "string \<Rightarrow> string \<Rightarrow> bool" where
  "removes_chr (a @ ''SN:chr'' @ b) (a @ ''SN:'' @ b)"

subsection \<open>A small run, for the examples\<close>

text \<open>
  A world with one input file, \<^verbatim>\<open>in.sam\<close>, that holds a header with only a text and four
  records, two of them (flags 4 and 77) with the unmapped bit set; every output path can
  be opened, and the C library copies overlapping regions as \<^verbatim>\<open>memmove\<close> does.
\<close>

definition example_header :: bam_header_t where
  "example_header = \<lparr>targets = [], hdr_text = Some ''@HD'', l_text = 3\<rparr>"

definition example_records :: "bam1_t list" where
  "example_records =
     [\<lparr>flag = 4, payload = []\<rparr>, \<lparr>flag = 0, payload = [1]\<rparr>,
      \<lparr>flag = 16, payload = [2]\<rparr>, \<lparr>flag = 77, payload = []\<rparr>]"

definition example_world :: world where
  "example_world =
     \<lparr>samfaipath = (\<lambda>p. None),
      samopen_r = (\<lambda>p m a. if p = ''in.sam'' \<and> m = ''r'' \<and> a = None
                            then Some (example_header, example_records) else None),
      samopen_wb = (\<lambda>p. True),
      strcpy_overlap = memmove_within\<rparr>"

definition example_argv :: "string list" where
  "example_argv = [''sam_bam_verify'', ''in.sam'', ''out.bam'']"

text \<open>
  A header that arrives without a text: two reference entries, the first with the prefix.
\<close>

definition textless_header :: bam_header_t where
  "textless_header =
     \<lparr>targets = [\<lparr>target_name = ''chr1'', target_len = 248956422\<rparr>,
                 \<lparr>target_name = ''2'', target_len = 242193529\<rparr>],
      hdr_text = None, l_text = 0\<rparr>"

text \<open>
  A world whose input opens with neither a text nor a reference entry, and the example
  world with an output that cannot be opened.
\<close>

definition headerless_world :: world where
  "headerless_world =
     \<lparr>samfaipath = (\<lambda>p. None),
      samopen_r = (\<lambda>p m a. Some (\<lparr>targets = [], hdr_text = None, l_text = 0\<rparr>, [])),
      samopen_wb = (\<lambda>p. True),
      strcpy_overlap = memmove_within\<rparr>"

definition readonly_world :: world where
  "readonly_world = example_world\<lparr>samopen_wb := (\<lambda>p. False)\<rparr>"

text \<open>
  A header without a text whose one reference is longer than \<^verbatim>\<open>INT_MAX\<close> bases.
\<close>

definition oversized_header :: bam_header_t where
  "oversized_header =
     \<lparr>targets = [\<lparr>target_name = ''big'', target_len = 3000000000\<rparr>],
      hdr_text = None, l_text = 0\<rparr>"

section \<open>Properties\<close>

subsection \<open>The table normalizer\<close>

lemma strstr_zero_iff: "strstr t needle = Some 0 \<longleftrightarrow> prefix needle t"
  by (cases t) auto

lemma strip_chr_fst:
  "fst (strip_chr debug e) =
     (if prefix ''chr'' (target_name e) \<and> 3 < length (target_name e) \<and> 3 < target_len e
      then e\<lparr>target_name := drop 3 (target_name e),
             target_len := int (length (drop 3 (target_name e)))\<rparr>
      else e)"
  by (simp add: strip_chr_def strstr_zero_iff Let_def)

text \<open>
  The loop invariant: when the loop stands at cell \<open>i\<close>, the cells below \<open>i\<close> are final
  and the cells from \<open>i\<close> on get the loop body applied, each once.
\<close>

lemma normalize_loop_fst:
  "i \<le> length es \<Longrightarrow>
   fst (normalize_loop debug i es err) =
     take i es @ map (\<lambda>e. fst (strip_chr debug e)) (drop i es)"
proof (induction debug i es err rule: normalize_loop.induct)
  case (1 debug i es err)
  show ?case
  proof (cases "i < length es")
    case False
    then have "normalize_loop debug i es err = (es, err)"
      by (subst normalize_loop.simps) simp
    with False "1.prems" show ?thesis by simp
  next
    case True
    obtain e' msgs where sc: "strip_chr debug (es ! i) = (e', msgs)"
      by (cases "strip_chr debug (es ! i)")
    have step: "normalize_loop debug i es err =
        normalize_loop debug (i + 1) (es[i := e']) (err @ msgs)"
      using True sc by (simp add: normalize_loop.simps [of debug i es err])
    have "fst (normalize_loop debug (i + 1) (es[i := e']) (err @ msgs)) =
        take (i + 1) (es[i := e']) @
        map (\<lambda>e. fst (strip_chr debug e)) (drop (i + 1) (es[i := e']))"
      using "1.IH" [OF True sc [symmetric] refl] True by simp
    also have "\<dots> = take i es @ [e'] @ map (\<lambda>e. fst (strip_chr debug e)) (drop (Suc i) es)"
      using True by (simp add: take_Suc_conv_app_nth)
    also have "\<dots> = take i es @ map (\<lambda>e. fst (strip_chr debug e)) (drop i es)"
      using True sc by (simp add: Cons_nth_drop_Suc [symmetric])
    finally show ?thesis using step by simp
  qed
qed

lemma normalize_table_targets:
  "targets (fst (normalize_table debug h)) = map (\<lambda>e. fst (strip_chr debug e)) (targets h)"
  using normalize_loop_fst [of 0 "targets h" debug "[]"]
  by (simp add: normalize_table_def case_prod_beta)

text \<open>
  Claim C1. The table normalizer replaces every entry whose name begins with \<open>chr\<close>, is
  longer than 3 characters and whose recorded length exceeds 3 by the entry named by the
  rest of the name, with the character count of that new name as its recorded length. Every
  other entry, the order and number of the entries, and the other fields of the header stay
  as they were.
\<close>

theorem normalize_table_entries:
  "fst (normalize_table debug h) =
     h\<lparr>targets :=
         map (\<lambda>e. if prefix ''chr'' (target_name e) \<and> 3 < length (target_name e) \<and>
                     3 < target_len e
                  then e\<lparr>target_name := drop 3 (target_name e),
                         target_len := int (length (drop 3 (target_name e)))\<rparr>
                  else e)
             (targets h)\<rparr>"
proof -
  have "fst (normalize_loop debug 0 (targets h) []) =
      map (\<lambda>e. fst (strip_chr debug e)) (targets h)"
    using normalize_loop_fst [of 0 "targets h" debug "[]"] by simp
  then show ?thesis
    by (simp add: normalize_table_def case_prod_beta strip_chr_fst)
qed

text \<open>
  The entry \<open>chr1\<close> of length 248956422 becomes \<open>1\<close> of length 1; an entry named \<open>chr\<close>,
  one of recorded length 3 and one named \<open>Chr2\<close> stay.
\<close>

theorem normalize_table_entries_witness:
  "fst (normalize_table False
      \<lparr>targets = [\<lparr>target_name = ''chr1'', target_len = 248956422\<rparr>,
                  \<lparr>target_name = ''chr'', target_len = 10\<rparr>,
                  \<lparr>target_name = ''chrM'', target_len = 3\<rparr>,
                  \<lparr>target_name = ''Chr2'', target_len = 30\<rparr>],
       hdr_text = None, l_text = 0\<rparr>) =
   \<lparr>targets = [\<lparr>target_name = ''1'', target_len = 1\<rparr>,
                \<lparr>target_name = ''chr'', target_len = 10\<rparr>,
                \<lparr>target_name = ''chrM'', target_len = 3\<rparr>,
                \<lparr>target_name = ''Chr2'', target_len = 30\<rparr>],
     hdr_text = None, l_text = 0\<rparr>"
  by (simp add: normalize_table_entries)

subsection \<open>The record stream\<close>

text \<open>
  The loop, from any state: the counter grows by the number of records whose unmapped
  bit is clear, and the records are appended to the output in the order they are read.
\<close>

lemma stream_loop_result:
  "stream_loop inp c out =
     (c + int (length (filter (\<lambda>b. flag b AND BAM_FUNMAP = 0) inp)), out @ inp)"
proof (induction inp arbitrary: c out)
  case Nil
  show ?case by (subst stream_loop.simps) (simp add: samread_def)
next
  case (Cons b rest)
  show ?case
    by (subst stream_loop.simps) (simp add: samread_def bam_write1_def Cons.IH)
qed

lemma transcode_success:
  "ending (transcode w out_path debug h0 recs) = Returned 0 \<Longrightarrow>
   stdout (transcode w out_path debug h0 recs) =
     [''Mapped reads: '' @
      dec_int (int (length (filter (\<lambda>b. flag b AND BAM_FUNMAP = 0) recs))) @ [NL]] \<and>
   out_records (transcode w out_path debug h0 recs) = recs"
  by (auto simp: transcode_def stream_loop_result
      split: prod.splits sum.splits option.splits if_splits)

lemma transcode_failure:
  "ending (transcode w out_path debug h0 recs) \<noteq> Returned 0 \<Longrightarrow>
   stdout (transcode w out_path debug h0 recs) = [] \<and>
   out_records (transcode w out_path debug h0 recs) = []"
  by (auto simp: transcode_def stream_loop_result
      split: prod.splits sum.splits option.splits if_splits)

lemma main_success:
  assumes "ending (main w argv) = Returned 0"
  shows "\<exists>h0 recs. open_input w argv = Some (h0, recs) \<and>
           main w argv = transcode w (argv ! 2) (verbose argv) h0 recs"
  using assms by (auto simp: main_def Let_def split: if_splits option.splits)

lemma main_failure:
  assumes "ending (main w argv) \<noteq> Returned 0"
  shows "stdout (main w argv) = [] \<and> out_records (main w argv) = []"
proof (cases "3 \<le> length argv \<and> argv ! 1 \<noteq> argv ! 2 \<and> open_input w argv \<noteq> None")
  case True
  then obtain h0 recs where "open_input w argv = Some (h0, recs)" by auto
  with True have "main w argv = transcode w (argv ! 2) (verbose argv) h0 recs"
    by (simp add: main_def Let_def)
  with assms transcode_failure show ?thesis by simp
next
  case False
  then show ?thesis
    by (auto simp: main_def Let_def split: option.splits)
qed

lemma example_open:
  "open_input example_world example_argv = Some (example_header, example_records)"
  by (simp add: example_world_def example_argv_def open_input_def select_mode_def
      strcasestr_def tolower_def)

lemma example_phase:
  "header_phase overlapping False example_header = (Some (Inr example_header), [])"
  by (simp add: example_header_def header_phase_def normalize_table_def
      normalize_loop.simps synthesize_def rewrite_header_def sn_chr_loop.simps n_targets_def)

lemma example_main:
  "main example_world example_argv =
     transcode example_world ''out.bam'' False example_header example_records"
  using example_open by (simp add: main_def verbose_def) (simp add: example_argv_def)

lemma example_ending: "ending (main example_world example_argv) = Returned 0"
  by (simp add: example_main transcode_def example_phase stream_loop_result)
     (simp add: example_world_def)

text \<open>
  Claim C2. The counter starts at zero and the loop adds one for each record whose
  unmapped bit is clear. A run that succeeds prints exactly one line on the standard
  output, \<open>Mapped reads:\<close> followed by the number of such records of the input container
  in decimal.
\<close>

theorem mapped_reads_reported:
  "fst (stream_loop recs 0 []) =
     int (length (filter (\<lambda>b. flag b AND BAM_FUNMAP = 0) recs)) \<and>
   (ending (main w argv) = Returned 0 \<longrightarrow>
     (\<exists>h0 input. open_input w argv = Some (h0, input) \<and>
        stdout (main w argv) =
          [''Mapped reads: '' @
           dec_int (int (length (filter (\<lambda>b. flag b AND BAM_FUNMAP = 0) input))) @ [NL]]))"
proof (intro conjI impI)
  show "fst (stream_loop recs 0 []) =
      int (length (filter (\<lambda>b. flag b AND BAM_FUNMAP = 0) recs))"
    by (simp add: stream_loop_result)
next
  assume ok: "ending (main w argv) = Returned 0"
  then obtain h0 input where o: "open_input w argv = Some (h0, input)"
    and m: "main w argv = transcode w (argv ! 2) (verbose argv) h0 input"
    using main_success by blast
  from ok m transcode_success [of w "argv ! 2" "verbose argv" h0 input] o
  show "\<exists>h0 input. open_input w argv = Some (h0, input) \<and>
        stdout (main w argv) =
          [''Mapped reads: '' @
           dec_int (int (length (filter (\<lambda>b. flag b AND BAM_FUNMAP = 0) input))) @ [NL]]"
    by auto
qed

text \<open>The example run reads four records, two of them mapped, and prints \<open>Mapped reads: 2\<close>.\<close>

theorem mapped_reads_reported_witness:
  "(\<exists>h0 input. open_input example_world example_argv = Some (h0, input) \<and>
      stdout (main example_world example_argv) =
        [''Mapped reads: '' @
         dec_int (int (length (filter (\<lambda>b. flag b AND BAM_FUNMAP = 0) input))) @ [NL]]) \<and>
   stdout (main example_world example_argv) = [''Mapped reads: 2'' @ [NL]]"
proof -
  from mapped_reads_reported [of "[]" example_world example_argv] example_ending
  have a: "\<exists>h0 input. open_input example_world example_argv = Some (h0, input) \<and>
      stdout (main example_world example_argv) =
        [''Mapped reads: '' @
         dec_int (int (length (filter (\<lambda>b. flag b AND BAM_FUNMAP = 0) input))) @ [NL]]"
    by blast
  then have "stdout (main example_world example_argv) = [''Mapped reads: 2'' @ [NL]]"
    by (simp add: example_open example_records_def BAM_FUNMAP_def dec_int_def dec_nat.simps)
  with a show ?thesis by blast
qed

text \<open>
  Claim C3. The loop writes the records it reads, each once, in the order read and as
  read. A run that succeeds leaves in the output container exactly the records of the
  input container; a run that does not succeed has written no record.
\<close>

theorem records_pass_through:
  "snd (stream_loop recs 0 []) = recs \<and>
   (ending (main w argv) = Returned 0 \<longrightarrow>
     (\<exists>h0 input. open_input w argv = Some (h0, input) \<and> out_records (main w argv) = input)) \<and>
   (ending (main w argv) \<noteq> Returned 0 \<longrightarrow> out_records (main w argv) = [])"
proof (intro conjI impI)
  show "snd (stream_loop recs 0 []) = recs"
    by (simp add: stream_loop_result)
next
  assume ok: "ending (main w argv) = Returned 0"
  then obtain h0 input where o: "open_input w argv = Some (h0, input)"
    and m: "main w argv = transcode w (argv ! 2) (verbose argv) h0 input"
    using main_success by blast
  from ok m transcode_success [of w "argv ! 2" "verbose argv" h0 input] o
  show "\<exists>h0 input. open_input w argv = Some (h0, input) \<and> out_records (main w argv) = input"
    by auto
next
  assume "ending (main w argv) \<noteq> Returned 0"
  then show "out_records (main w argv) = []"
    using main_failure by blast
qed

text \<open>The example run writes its four input records.\<close>

theorem records_pass_through_witness:
  "snd (stream_loop example_records 0 []) = example_records \<and>
   out_records (main example_world example_argv) = example_records"
proof -
  from records_pass_through [of example_records example_world example_argv] example_ending
  have "snd (stream_loop example_records 0 []) = example_records"
    and "\<exists>h0 input. open_input example_world example_argv = Some (h0, input) \<and>
      out_records (main example_world example_argv) = input"
    by blast+
  then show ?thesis by (simp add: example_open)
qed

subsection \<open>The header text rewriter\<close>

text \<open>
  \<^const>\<open>strstr\<close> finds an occurrence exactly when there is one, the one it finds is the
  first, and it lies inside the text.
\<close>

lemma strstr_Some_bound: "strstr t needle = Some i \<Longrightarrow> i + length needle \<le> length t"
proof (induction t arbitrary: i)
  case Nil
  then show ?case by (simp split: if_splits)
next
  case (Cons c cs)
  show ?case
  proof (cases "prefix needle (c # cs)")
    case True
    with Cons.prems show ?thesis using prefix_length_le [of needle "c # cs"] by simp
  next
    case False
    with Cons.prems obtain j where "strstr cs needle = Some j" "i = Suc j" by auto
    with Cons.IH show ?thesis by fastforce
  qed
qed

lemma strstr_None_iff: "strstr t needle = None \<longleftrightarrow> \<not> sublist needle t"
proof (induction t)
  case Nil
  show ?case by simp
next
  case (Cons c cs)
  then show ?case by (auto simp: sublist_Cons_right)
qed

lemma strstr_Some_occurrence:
  "strstr t needle = Some i \<Longrightarrow> prefix needle (drop i t)"
proof (induction t arbitrary: i)
  case Nil
  then show ?case by (simp split: if_splits)
next
  case (Cons c cs)
  show ?case
  proof (cases "prefix needle (c # cs)")
    case True
    with Cons.prems show ?thesis by simp
  next
    case False
    with Cons.prems obtain j where "strstr cs needle = Some j" "i = Suc j" by auto
    with Cons.IH show ?thesis by simp
  qed
qed

lemma strstr_Some_first:
  "strstr t needle = Some i \<Longrightarrow> j < i \<Longrightarrow> \<not> prefix needle (drop j t)"
proof (induction t arbitrary: i j)
  case Nil
  then show ?case by (simp split: if_splits)
next
  case (Cons c cs)
  show ?case
  proof (cases "prefix needle (c # cs)")
    case True
    with Cons.prems show ?thesis by simp
  next
    case False
    with Cons.prems obtain k where k: "strstr cs needle = Some k" "i = Suc k" by auto
    show ?thesis
    proof (cases j)
      case 0
      with False show ?thesis by simp
    next
      case (Suc j')
      with k Cons.prems Cons.IH [of k j'] show ?thesis by simp
    qed
  qed
qed

lemma strstr_Some_split:
  assumes "strstr t needle = Some i"
  shows "t = take i t @ needle @ drop (i + length needle) t"
proof -
  from strstr_Some_occurrence [OF assms] obtain r where r: "drop i t = needle @ r"
    by (auto simp: prefix_def)
  then have "drop (i + length needle) t = r"
    by (metis add.commute append_eq_conv_conj drop_drop)
  with r show ?thesis by (metis append_take_drop_id)
qed


text \<open>
  The copy of line 80 is fixed by the C standard when at most two characters follow the
  \<open>SN:chr\<close> it works on, and is the library's own affair otherwise. A library that copies
  as \<^verbatim>\<open>memmove\<close> does removes the \<open>chr\<close>.
\<close>

lemma strcpy_within_memmove: "strcpy_within memmove_within t d s = memmove_within t d s"
  by (simp add: strcpy_within_def memmove_within_def)

lemma strcpy_within_apart:
  "length t \<le> i + 8 \<Longrightarrow>
   strcpy_within overlapping t (i + 3) (i + 6) = memmove_within t (i + 3) (i + 6)"
  by (auto simp: strcpy_within_def memmove_within_def)

lemma strcpy_within_overlap:
  "i + 8 < length t \<Longrightarrow>
   strcpy_within overlapping t (i + 3) (i + 6) = overlapping t (i + 3) (i + 6)"
  by (auto simp: strcpy_within_def)

lemma memmove_within_removes:
  assumes "strstr t ''SN:chr'' = Some i"
  shows "removes_chr t (memmove_within t (i + 3) (i + 6))"
proof -
  let ?a = "take i t" and ?b = "drop (i + 6) t"
  have six: "length ''SN:chr'' = 6" by simp
  have "t = ?a @ ''SN:chr'' @ drop (i + length ''SN:chr'') t"
    using assms by (rule strstr_Some_split)
  then have t: "t = ?a @ ''SN:chr'' @ ?b" by (simp only: six)
  from strstr_Some_bound [OF assms] have len: "i + 6 \<le> length t" by simp
  have "take (i + 3) t = take (i + 3) (?a @ ''SN:chr'' @ ?b)" using t by simp
  also have "\<dots> = ?a @ ''SN:''" using len by (simp add: min_def)
  finally have "memmove_within t (i + 3) (i + 6) = ?a @ ''SN:'' @ ?b"
    by (simp add: memmove_within_def)
  moreover have "removes_chr (?a @ ''SN:chr'' @ ?b) (?a @ ''SN:'' @ ?b)"
    by (rule removes_chr.intros)
  ultimately show ?thesis using t by simp
qed

text \<open>
  The loop: it returns at once on a text without \<open>SN:chr\<close>, what it returns holds no
  \<open>SN:chr\<close> whatever the copies did, and with \<^verbatim>\<open>memmove\<close> in the place of
  \<^verbatim>\<open>strcpy\<close> it always returns, having done removals only.
\<close>

lemma sn_chr_loop_fixed: "strstr t ''SN:chr'' = None \<Longrightarrow> sn_chr_loop overlapping t = Some t"
  by (subst sn_chr_loop.simps) simp

lemma sn_chr_loop_step:
  "strstr t ''SN:chr'' = Some i \<Longrightarrow>
   sn_chr_loop overlapping t =
     sn_chr_loop overlapping (strcpy_within overlapping t (i + 3) (i + 6))"
  by (subst sn_chr_loop.simps) simp

lemma sn_chr_loop_clean:
  assumes "sn_chr_loop overlapping t = Some t'"
  shows "strstr t' ''SN:chr'' = None"
  by (rule sn_chr_loop.raw_induct
        [where P = "\<lambda>overlapping t t'. strstr t' ''SN:chr'' = None", OF _ assms])
     (auto split: option.splits)

lemma sn_chr_loop_memmove:
  "\<exists>t'. sn_chr_loop memmove_within t = Some t' \<and> removes_chr\<^sup>*\<^sup>* t t'"
proof (induction t rule: length_induct)
  case (1 t)
  show ?case
  proof (cases "strstr t ''SN:chr''")
    case None
    then show ?thesis by (simp add: sn_chr_loop_fixed)
  next
    case (Some i)
    let ?u = "memmove_within t (i + 3) (i + 6)"
    from strstr_Some_bound [OF Some] have "length ?u < length t"
      by (simp add: memmove_within_def)
    with "1.IH" obtain t' where t': "sn_chr_loop memmove_within ?u = Some t'"
      and r: "removes_chr\<^sup>*\<^sup>* ?u t'" by blast
    have "sn_chr_loop memmove_within t = Some t'"
      using sn_chr_loop_step [OF Some, of memmove_within] t'
      by (simp add: strcpy_within_memmove)
    moreover have "removes_chr\<^sup>*\<^sup>* t t'"
      using memmove_within_removes [OF Some] r by (rule converse_rtranclp_into_rtranclp)
    ultimately show ?thesis by blast
  qed
qed

lemma rewrite_header_present:
  "hdr_text h = Some t \<Longrightarrow>
   fst (rewrite_header overlapping debug h) =
     map_option (\<lambda>t'. Inr (h\<lparr>hdr_text := Some t', l_text := int (length t')\<rparr>))
       (sn_chr_loop overlapping t)"
  by (simp add: rewrite_header_def split: option.splits)

text \<open>
  Claim C4. For a header whose text is present the rewriter stores what the loop returns,
  with that text's character count as \<open>l_text\<close>. The loop looks for the first \<open>SN:chr\<close>
  from the start of the text and calls \<^verbatim>\<open>strcpy\<close> to move the rest of the text down over
  the \<open>chr\<close>. Source and destination of that call overlap as soon as three characters
  follow the occurrence, and then the text is whatever the C library leaves: the program
  does not decide it. What the loop returns holds no \<open>SN:chr\<close> in any case. Only with a
  copy that works as \<^verbatim>\<open>memmove\<close> is the result the text of the claim, reached by removing
  \<open>chr\<close> after \<open>SN:\<close> and nothing else. The last part is the claim's own example: its text
  after the first pass is what the library's copy made of it.
\<close>

theorem rewriter_rests_on_library_copy:
  "(hdr_text h = Some t \<longrightarrow>
      fst (rewrite_header overlapping debug h) =
        map_option (\<lambda>t'. Inr (h\<lparr>hdr_text := Some t', l_text := int (length t')\<rparr>))
          (sn_chr_loop overlapping t)) \<and>
   sn_chr_loop overlapping t =
     (case strstr t ''SN:chr'' of
        None \<Rightarrow> Some t
      | Some i \<Rightarrow>
          sn_chr_loop overlapping
            (if length t \<le> i + 8 then take (i + 3) t @ drop (i + 6) t
             else overlapping t (i + 3) (i + 6))) \<and>
   (\<forall>t'. sn_chr_loop overlapping t = Some t' \<longrightarrow> \<not> sublist ''SN:chr'' t') \<and>
   (\<exists>t'. sn_chr_loop memmove_within t = Some t' \<and> removes_chr\<^sup>*\<^sup>* t t' \<and>
         \<not> sublist ''SN:chr'' t') \<and>
   sn_chr_loop overlapping (''@SQ'' @ [TAB] @ ''SN:chrX'' @ [TAB] @ ''LN:156040895'') =
     sn_chr_loop overlapping
       (overlapping (''@SQ'' @ [TAB] @ ''SN:chrX'' @ [TAB] @ ''LN:156040895'') 7 10)"
proof (intro conjI impI allI)
  assume "hdr_text h = Some t"
  then show "fst (rewrite_header overlapping debug h) =
        map_option (\<lambda>t'. Inr (h\<lparr>hdr_text := Some t', l_text := int (length t')\<rparr>))
          (sn_chr_loop overlapping t)"
    by (rule rewrite_header_present)
next
  show "sn_chr_loop overlapping t =
     (case strstr t ''SN:chr'' of
        None \<Rightarrow> Some t
      | Some i \<Rightarrow>
          sn_chr_loop overlapping
            (if length t \<le> i + 8 then take (i + 3) t @ drop (i + 6) t
             else overlapping t (i + 3) (i + 6)))"
    by (subst sn_chr_loop.simps)
       (auto simp: strcpy_within_def split: option.splits)
next
  fix t' assume "sn_chr_loop overlapping t = Some t'"
  then show "\<not> sublist ''SN:chr'' t'"
    using sn_chr_loop_clean strstr_None_iff by blast
next
  from sn_chr_loop_memmove [of t] obtain t' where
    t': "sn_chr_loop memmove_within t = Some t'" "removes_chr\<^sup>*\<^sup>* t t'" by blast
  then have "\<not> sublist ''SN:chr'' t'"
    using sn_chr_loop_clean strstr_None_iff by blast
  with t' show "\<exists>t'. sn_chr_loop memmove_within t = Some t' \<and> removes_chr\<^sup>*\<^sup>* t t' \<and>
         \<not> sublist ''SN:chr'' t'" by blast
next
  show "sn_chr_loop overlapping (''@SQ'' @ [TAB] @ ''SN:chrX'' @ [TAB] @ ''LN:156040895'') =
     sn_chr_loop overlapping
       (overlapping (''@SQ'' @ [TAB] @ ''SN:chrX'' @ [TAB] @ ''LN:156040895'') 7 10)"
    by (subst sn_chr_loop.simps) (simp add: strcpy_within_def)
qed

text \<open>
  With a library that copies as \<^verbatim>\<open>memmove\<close> does, the declaration of \<open>chrX\<close> becomes the
  declaration of \<open>X\<close>, its \<open>LN:\<close> field as it was, and the recorded length is 21.
\<close>

theorem rewriter_rests_on_library_copy_witness:
  "fst (rewrite_header memmove_within False
      \<lparr>targets = [], hdr_text = Some (''@SQ'' @ [TAB] @ ''SN:chrX'' @ [TAB] @ ''LN:156040895''),
       l_text = 24\<rparr>) =
   Some (Inr \<lparr>targets = [],
              hdr_text = Some (''@SQ'' @ [TAB] @ ''SN:X'' @ [TAB] @ ''LN:156040895''),
              l_text = 21\<rparr>)"
proof -
  let ?t = "''@SQ'' @ [TAB] @ ''SN:chrX'' @ [TAB] @ ''LN:156040895''"
  let ?h = "\<lparr>targets = [], hdr_text = Some ?t, l_text = 24\<rparr>"
  have t: "sn_chr_loop memmove_within ?t =
      Some (''@SQ'' @ [TAB] @ ''SN:X'' @ [TAB] @ ''LN:156040895'')"
    by (simp add: sn_chr_loop.simps strcpy_within_def memmove_within_def)
  have "hdr_text ?h = Some ?t" by simp
  with rewriter_rests_on_library_copy [of ?h ?t memmove_within False]
  have "fst (rewrite_header memmove_within False ?h) =
      map_option (\<lambda>t'. Inr (?h\<lparr>hdr_text := Some t', l_text := int (length t')\<rparr>))
        (sn_chr_loop memmove_within ?t)"
    by blast
  with t show ?thesis by simp
qed

text \<open>
  Claim C6. On a text that holds no \<open>SN:chr\<close> the rewrite changes nothing: the loop
  returns the text it was given, the header keeps its text, and the loop run on a text
  it has returned returns that text again. No copy is made on such a text, so this holds
  with every C library.
\<close>

theorem rewrite_idempotent:
  "(\<not> sublist ''SN:chr'' t \<longrightarrow> sn_chr_loop overlapping t = Some t) \<and>
   (hdr_text h = Some t \<and> \<not> sublist ''SN:chr'' t \<longrightarrow>
      (\<exists>h'. fst (rewrite_header overlapping debug h) = Some (Inr h') \<and> hdr_text h' = Some t)) \<and>
   (\<forall>t'. sn_chr_loop overlapping t = Some t' \<longrightarrow> sn_chr_loop overlapping t' = Some t')"
proof (intro conjI impI allI)
  assume "\<not> sublist ''SN:chr'' t"
  then show "sn_chr_loop overlapping t = Some t"
    by (simp add: sn_chr_loop_fixed strstr_None_iff)
next
  assume a: "hdr_text h = Some t \<and> \<not> sublist ''SN:chr'' t"
  then have "sn_chr_loop overlapping t = Some t"
    by (simp add: sn_chr_loop_fixed strstr_None_iff)
  with a show "\<exists>h'. fst (rewrite_header overlapping debug h) = Some (Inr h') \<and>
      hdr_text h' = Some t"
    by (simp add: rewrite_header_def)
next
  fix t' assume "sn_chr_loop overlapping t = Some t'"
  then show "sn_chr_loop overlapping t' = Some t'"
    by (intro sn_chr_loop_fixed sn_chr_loop_clean)
qed

text \<open>The declaration of \<open>X\<close> holds no \<open>SN:chr\<close> and stays.\<close>

theorem rewrite_idempotent_witness:
  "\<not> sublist ''SN:chr'' (''@SQ'' @ [TAB] @ ''SN:X'' @ [TAB] @ ''LN:156040895'') \<and>
   sn_chr_loop memmove_within (''@SQ'' @ [TAB] @ ''SN:X'' @ [TAB] @ ''LN:156040895'') =
     Some (''@SQ'' @ [TAB] @ ''SN:X'' @ [TAB] @ ''LN:156040895'')"
proof -
  let ?t = "''@SQ'' @ [TAB] @ ''SN:X'' @ [TAB] @ ''LN:156040895''"
  have n: "\<not> sublist ''SN:chr'' ?t"
    by (simp add: strstr_None_iff [symmetric])
  with rewrite_idempotent [of ?t memmove_within] show ?thesis by blast
qed

subsection \<open>The header text synthesizer and the phase as a whole\<close>

text \<open>The loop of lines 70--76 appends the lines of the entries from \<open>i\<close> on.\<close>

lemma synth_loop_concat:
  "i \<le> length es \<Longrightarrow> synth_loop i es buf = buf @ concat (map sq_line (drop i es))"
proof (induction i es buf rule: synth_loop.induct)
  case (1 i es buf)
  show ?case
  proof (cases "i < length es")
    case False
    then have "synth_loop i es buf = buf" by (subst synth_loop.simps) simp
    with False "1.prems" show ?thesis by simp
  next
    case True
    have "synth_loop i es buf = synth_loop (i + 1) es (buf @ sq_line (es ! i))"
      using True by (subst synth_loop.simps) (simp add: Let_def)
    also have "\<dots> = (buf @ sq_line (es ! i)) @ concat (map sq_line (drop (i + 1) es))"
      using "1.IH" [OF True refl refl] True by simp
    also have "\<dots> = buf @ concat (map sq_line (drop i es))"
      using True by (simp add: Cons_nth_drop_Suc [symmetric])
    finally show ?thesis .
  qed
qed

lemma synthesize_eq:
  "synthesize h =
     (if (hdr_text h = None \<or> hdr_text h = Some []) \<and> targets h \<noteq> []
      then (h\<lparr>hdr_text := Some (concat (map sq_line (targets h)))\<rparr>, [regenerating])
      else (h, []))"
  using synth_loop_concat [of 0 "targets h" "[]"]
  by (auto simp: synthesize_def n_targets_def split: option.splits)

text \<open>What the normalizer prints: the messages of the loop body, entry after entry.\<close>

lemma normalize_loop_snd:
  "i \<le> length es \<Longrightarrow>
   snd (normalize_loop debug i es err) =
     err @ concat (map (\<lambda>e. snd (strip_chr debug e)) (drop i es))"
proof (induction debug i es err rule: normalize_loop.induct)
  case (1 debug i es err)
  show ?case
  proof (cases "i < length es")
    case False
    then have "normalize_loop debug i es err = (es, err)"
      by (subst normalize_loop.simps) simp
    with False "1.prems" show ?thesis by simp
  next
    case True
    obtain e' msgs where sc: "strip_chr debug (es ! i) = (e', msgs)"
      by (cases "strip_chr debug (es ! i)")
    have step: "normalize_loop debug i es err =
        normalize_loop debug (i + 1) (es[i := e']) (err @ msgs)"
      using True sc by (simp add: normalize_loop.simps [of debug i es err])
    have "snd (normalize_loop debug (i + 1) (es[i := e']) (err @ msgs)) =
        (err @ msgs) @
        concat (map (\<lambda>e. snd (strip_chr debug e)) (drop (i + 1) (es[i := e'])))"
      using "1.IH" [OF True sc [symmetric] refl] True by simp
    also have "\<dots> = err @ concat (map (\<lambda>e. snd (strip_chr debug e)) (drop i es))"
      using True sc by (simp add: Cons_nth_drop_Suc [symmetric])
    finally show ?thesis using step by simp
  qed
qed

lemma strip_chr_quiet: "m \<in> set (snd (strip_chr debug e)) \<Longrightarrow> m \<noteq> regenerating"
  by (auto simp: strip_chr_def Let_def regenerating_def split: if_splits)

lemma normalize_table_quiet: "regenerating \<notin> set (snd (normalize_table debug h))"
proof -
  have "snd (normalize_table debug h) =
      concat (map (\<lambda>e. snd (strip_chr debug e)) (targets h))"
    using normalize_loop_snd [of 0 "targets h" debug "[]"]
    by (simp add: normalize_table_def case_prod_beta)
  then show ?thesis using strip_chr_quiet by auto
qed

lemma normalize_table_text:
  "hdr_text (fst (normalize_table debug h)) = hdr_text h"
  by (simp add: normalize_table_def case_prod_beta)

lemma normalize_table_empty:
  "targets (fst (normalize_table debug h)) = [] \<longleftrightarrow> targets h = []"
  by (simp add: normalize_table_targets)

lemma rewrite_header_quiet: "regenerating \<notin> set (snd (rewrite_header overlapping debug h))"
  by (auto simp: rewrite_header_def regenerating_def split: option.splits)

text \<open>The three steps of the phase, put together.\<close>

lemma header_phase_regenerating:
  "regenerating \<in> set (snd (header_phase overlapping debug h0)) \<longleftrightarrow>
     (hdr_text h0 = None \<or> hdr_text h0 = Some []) \<and> targets h0 \<noteq> []"
proof -
  obtain h1 err1 where n: "normalize_table debug h0 = (h1, err1)"
    by (cases "normalize_table debug h0")
  obtain h2 err2 where s: "synthesize h1 = (h2, err2)"
    by (cases "synthesize h1")
  obtain r err3 where w: "rewrite_header overlapping debug h2 = (r, err3)"
    by (cases "rewrite_header overlapping debug h2")
  have q1: "regenerating \<notin> set err1" using normalize_table_quiet [of debug h0] n by simp
  have q3: "regenerating \<notin> set err3" using rewrite_header_quiet [of overlapping debug h2] w by simp
  have t: "hdr_text h1 = hdr_text h0" using normalize_table_text [of debug h0] n by simp
  have e: "targets h1 = [] \<longleftrightarrow> targets h0 = []" using normalize_table_empty [of debug h0] n by simp
  have "regenerating \<in> set err2 \<longleftrightarrow>
      (hdr_text h1 = None \<or> hdr_text h1 = Some []) \<and> targets h1 \<noteq> []"
    using s by (auto simp: synthesize_eq split: if_splits)
  then show ?thesis
    using q1 q3 t e by (simp add: header_phase_def n s w)
qed

text \<open>
  The phase hands to the rewriter what the synthesizer made of the normalized header.
\<close>

lemma header_phase_fst:
  "fst (header_phase overlapping debug h0) =
     fst (rewrite_header overlapping debug (fst (synthesize (fst (normalize_table debug h0)))))"
  by (simp add: header_phase_def case_prod_beta)

text \<open>Up to \<^verbatim>\<open>INT_MAX\<close> the numeral \<^verbatim>\<open>%d\<close> prints is the length itself.\<close>

lemma as_int32_small: "0 \<le> x \<Longrightarrow> x < 2 ^ 31 \<Longrightarrow> as_int32 x = x"
  by (simp add: as_int32_def)

text \<open>How the phase can end: in the fault of line 78, with a header, or never.\<close>

lemma header_phase_fault:
  "fst (header_phase overlapping debug h) = Some (Inl NullDereference) \<longleftrightarrow>
     hdr_text h = None \<and> targets h = []"
proof -
  let ?h1 = "fst (normalize_table debug h)"
  have t: "hdr_text ?h1 = hdr_text h" by (rule normalize_table_text)
  have e: "targets ?h1 = [] \<longleftrightarrow> targets h = []" by (rule normalize_table_empty)
  show ?thesis
    using t e
    by (auto simp: header_phase_fst synthesize_eq rewrite_header_def
        split: option.splits if_splits)
qed

lemma header_phase_header:
  "(\<exists>h'. fst (header_phase overlapping debug h) = Some (Inr h')) \<longleftrightarrow>
     (hdr_text h \<noteq> None \<or> targets h \<noteq> []) \<and> fst (header_phase overlapping debug h) \<noteq> None"
proof -
  have "(\<exists>h'. fst (header_phase overlapping debug h) = Some (Inr h')) \<longleftrightarrow>
      fst (header_phase overlapping debug h) \<noteq> Some (Inl NullDereference) \<and>
      fst (header_phase overlapping debug h) \<noteq> None"
  proof (cases "fst (header_phase overlapping debug h)")
    case None
    then show ?thesis by simp
  next
    case (Some r)
    then show ?thesis by (cases r) (auto intro: fault.exhaust)
  qed
  then show ?thesis by (simp add: header_phase_fault)
qed

lemma rewrite_header_memmove: "fst (rewrite_header memmove_within debug h) \<noteq> None"
proof (cases "hdr_text h")
  case None
  then show ?thesis by (simp add: rewrite_header_def)
next
  case (Some t)
  from sn_chr_loop_memmove [of t] obtain t' where "sn_chr_loop memmove_within t = Some t'"
    by blast
  with Some show ?thesis by (simp add: rewrite_header_def)
qed

lemma header_phase_memmove: "fst (header_phase memmove_within debug h) \<noteq> None"
  by (simp add: header_phase_fst rewrite_header_memmove)

text \<open>The two headers without a text, through the phase.\<close>

lemma normalize_table_fst:
  "fst (normalize_table debug h) = h\<lparr>targets := map (\<lambda>e. fst (strip_chr debug e)) (targets h)\<rparr>"
  using normalize_loop_fst [of 0 "targets h" debug "[]"]
  by (simp add: normalize_table_def case_prod_beta)

lemma oversized_phase:
  "fst (header_phase overlapping False oversized_header) =
     Some (Inr \<lparr>targets = [\<lparr>target_name = ''big'', target_len = 3000000000\<rparr>],
                hdr_text = Some (''@SQ'' @ [TAB] @ ''SN:big'' @ [TAB] @ ''LN:-1294967296'' @ [NL]),
                l_text = 26\<rparr>)"
  by (simp add: header_phase_fst normalize_table_fst strip_chr_fst oversized_header_def
      synthesize_eq sq_line_def as_int32_def dec_int_def dec_nat.simps rewrite_header_def
      sn_chr_loop.simps)

text \<open>
  Claim C5. The synthesizer runs exactly when the text is absent or empty and the table
  has an entry; in the whole header phase that is decided on the header as loaded, and
  the notice \<open>No header found, regenerating.\<close> on the diagnostic stream tells it. When it
  runs it writes one line \<open>@SQ<TAB>SN:name<TAB>LN:numeral<NL>\<close> for each entry, in the
  order of the table, from the names and lengths the normalizer left there, and hands that
  text to the rewriter. The numeral is what \<^verbatim>\<open>%d\<close> makes of the 32 bits of the length: the
  length itself up to \<^verbatim>\<open>INT_MAX\<close>, a negative number above. A header without a text whose
  reference \<open>big\<close> has length 3000000000 leaves the phase with the line
  \<open>@SQ<TAB>SN:big<TAB>LN:-1294967296\<close>. When the loaded text is not empty the synthesizer
  leaves the header alone, and the text reaches the rewriter as it was loaded.
\<close>

theorem synthesis_trigger_and_form:
  "synthesize h =
     (if (hdr_text h = None \<or> hdr_text h = Some []) \<and> targets h \<noteq> []
      then (h\<lparr>hdr_text :=
                Some (concat (map (\<lambda>e. ''@SQ'' @ [TAB] @ ''SN:'' @ target_name e @ [TAB] @
                                        ''LN:'' @ dec_int (as_int32 (target_len e)) @ [NL])
                                  (targets h)))\<rparr>,
            [regenerating])
      else (h, [])) \<and>
   (0 \<le> n \<and> n < 2 ^ 31 \<longrightarrow> as_int32 n = n) \<and>
   fst (header_phase overlapping False oversized_header) =
     Some (Inr \<lparr>targets = [\<lparr>target_name = ''big'', target_len = 3000000000\<rparr>],
                hdr_text = Some (''@SQ'' @ [TAB] @ ''SN:big'' @ [TAB] @ ''LN:-1294967296'' @ [NL]),
                l_text = 26\<rparr>) \<and>
   (regenerating \<in> set (snd (header_phase overlapping debug h0))) =
     ((hdr_text h0 = None \<or> hdr_text h0 = Some []) \<and> targets h0 \<noteq> []) \<and>
   fst (header_phase overlapping debug h0) =
     fst (rewrite_header overlapping debug
            (fst (synthesize (fst (normalize_table debug h0))))) \<and>
   (hdr_text h0 = Some t \<and> t \<noteq> [] \<longrightarrow>
      synthesize (fst (normalize_table debug h0)) = (fst (normalize_table debug h0), []) \<and>
      hdr_text (fst (normalize_table debug h0)) = Some t)"
proof (intro conjI impI)
  have "sq_line = (\<lambda>e. ''@SQ'' @ [TAB] @ ''SN:'' @ target_name e @ [TAB] @
      ''LN:'' @ dec_int (as_int32 (target_len e)) @ [NL])"
    by (rule ext) (simp add: sq_line_def)
  then show "synthesize h =
     (if (hdr_text h = None \<or> hdr_text h = Some []) \<and> targets h \<noteq> []
      then (h\<lparr>hdr_text :=
                Some (concat (map (\<lambda>e. ''@SQ'' @ [TAB] @ ''SN:'' @ target_name e @ [TAB] @
                                        ''LN:'' @ dec_int (as_int32 (target_len e)) @ [NL])
                                  (targets h)))\<rparr>,
            [regenerating])
      else (h, []))"
    using synthesize_eq [of h] by simp
next
  assume "0 \<le> n \<and> n < 2 ^ 31"
  then show "as_int32 n = n" by (simp add: as_int32_small)
next
  show "fst (header_phase overlapping False oversized_header) =
     Some (Inr \<lparr>targets = [\<lparr>target_name = ''big'', target_len = 3000000000\<rparr>],
                hdr_text = Some (''@SQ'' @ [TAB] @ ''SN:big'' @ [TAB] @ ''LN:-1294967296'' @ [NL]),
                l_text = 26\<rparr>)"
    by (rule oversized_phase)
next
  show "(regenerating \<in> set (snd (header_phase overlapping debug h0))) =
     ((hdr_text h0 = None \<or> hdr_text h0 = Some []) \<and> targets h0 \<noteq> [])"
    by (rule header_phase_regenerating)
next
  show "fst (header_phase overlapping debug h0) =
     fst (rewrite_header overlapping debug
            (fst (synthesize (fst (normalize_table debug h0)))))"
    by (rule header_phase_fst)
next
  assume a: "hdr_text h0 = Some t \<and> t \<noteq> []"
  then show "synthesize (fst (normalize_table debug h0)) = (fst (normalize_table debug h0), [])"
    by (simp add: synthesize_eq normalize_table_text)
  from a show "hdr_text (fst (normalize_table debug h0)) = Some t"
    by (simp add: normalize_table_text)
qed

lemma textless_normalized:
  "fst (normalize_table False textless_header) =
     \<lparr>targets = [\<lparr>target_name = ''1'', target_len = 1\<rparr>,
                 \<lparr>target_name = ''2'', target_len = 242193529\<rparr>],
      hdr_text = None, l_text = 0\<rparr>"
  by (simp add: normalize_table_fst strip_chr_fst textless_header_def)

text \<open>
  With no text and the entries \<open>chr1\<close> and \<open>2\<close>, the notice is printed and the text
  becomes the two lines of the entries \<open>1\<close> (of length 1) and \<open>2\<close>; no \<open>SN:chr\<close> stands in
  them, so no copy is made.
\<close>

theorem synthesis_trigger_and_form_witness:
  "regenerating \<in> set (snd (header_phase memmove_within False textless_header)) \<and>
   as_int32 242193529 = 242193529 \<and>
   fst (header_phase memmove_within False textless_header) =
     Some (Inr \<lparr>targets = [\<lparr>target_name = ''1'', target_len = 1\<rparr>,
                           \<lparr>target_name = ''2'', target_len = 242193529\<rparr>],
                hdr_text =
                  Some (''@SQ'' @ [TAB] @ ''SN:1'' @ [TAB] @ ''LN:1'' @ [NL] @
                        ''@SQ'' @ [TAB] @ ''SN:2'' @ [TAB] @ ''LN:242193529'' @ [NL]),
                l_text = 36\<rparr>)"
proof -
  have c: "(hdr_text textless_header = None \<or> hdr_text textless_header = Some []) \<and>
      targets textless_header \<noteq> []"
    by (simp add: textless_header_def)
  note inst = synthesis_trigger_and_form
    [of "fst (normalize_table False textless_header)" 242193529 memmove_within False
        textless_header "[]"]
  from inst c have r: "regenerating \<in> set (snd (header_phase memmove_within False textless_header))"
    by blast
  from inst have n: "as_int32 242193529 = 242193529" by simp
  from inst have s: "synthesize (fst (normalize_table False textless_header)) =
      (\<lparr>targets = [\<lparr>target_name = ''1'', target_len = 1\<rparr>,
                   \<lparr>target_name = ''2'', target_len = 242193529\<rparr>],
        hdr_text =
          Some (''@SQ'' @ [TAB] @ ''SN:1'' @ [TAB] @ ''LN:1'' @ [NL] @
                ''@SQ'' @ [TAB] @ ''SN:2'' @ [TAB] @ ''LN:242193529'' @ [NL]),
        l_text = 0\<rparr>, [regenerating])"
    by (simp add: textless_normalized as_int32_def dec_int_def dec_nat.simps)
  from inst have "fst (header_phase memmove_within False textless_header) =
      fst (rewrite_header memmove_within False
            (fst (synthesize (fst (normalize_table False textless_header)))))"
    by blast
  then have "fst (header_phase memmove_within False textless_header) =
     Some (Inr \<lparr>targets = [\<lparr>target_name = ''1'', target_len = 1\<rparr>,
                           \<lparr>target_name = ''2'', target_len = 242193529\<rparr>],
                hdr_text =
                  Some (''@SQ'' @ [TAB] @ ''SN:1'' @ [TAB] @ ''LN:1'' @ [NL] @
                        ''@SQ'' @ [TAB] @ ''SN:2'' @ [TAB] @ ''LN:242193529'' @ [NL]),
                l_text = 36\<rparr>)"
    by (simp add: s rewrite_header_def sn_chr_loop.simps)
  with r n show ?thesis by blast
qed


subsection \<open>The run\<close>

lemma main_opened:
  "3 \<le> length argv \<Longrightarrow> argv ! 1 \<noteq> argv ! 2 \<Longrightarrow> open_input w argv = Some (h, recs) \<Longrightarrow>
   main w argv = transcode w (argv ! 2) (verbose argv) h recs"
  by (simp add: main_def Let_def)

lemma transcode_fault:
  "fst (header_phase (strcpy_overlap w) debug h) = Some (Inl f) \<Longrightarrow>
   ending (transcode w out_path debug h recs) = Faulted f \<and>
   infp (transcode w out_path debug h recs) = Opened \<and>
   outfp (transcode w out_path debug h recs) = Unopened"
  by (cases "header_phase (strcpy_overlap w) debug h") (simp add: transcode_def)

lemma transcode_handles:
  "infp (transcode w out_path debug h recs) =
     (if ending (transcode w out_path debug h recs) = Returned 0 then Closed else Opened) \<and>
   outfp (transcode w out_path debug h recs) =
     (if ending (transcode w out_path debug h recs) = Returned 0 then Closed else Unopened)"
  by (auto simp: transcode_def split: prod.splits sum.splits option.splits)

text \<open>
  Claim C9. The header phase faults, on the \<^verbatim>\<open>strdup\<close> of line 78, exactly when the text
  is absent and the table is empty: the guard of line 64 asks for an entry, so the
  synthesizer leaves the absent text as it is. The phase returns a header only with a text
  or an entry, and then whenever the loop of lines 79--81 returns, which it always does
  with a library that copies as \<^verbatim>\<open>memmove\<close> does. A run whose input opens with neither
  text nor entry ends in the fault.
\<close>

theorem absent_text_empty_table_faults:
  "(fst (header_phase overlapping debug h) = Some (Inl NullDereference)) =
     (hdr_text h = None \<and> targets h = []) \<and>
   ((\<exists>h'. fst (header_phase overlapping debug h) = Some (Inr h')) =
     ((hdr_text h \<noteq> None \<or> targets h \<noteq> []) \<and>
      fst (header_phase overlapping debug h) \<noteq> None)) \<and>
   ((\<exists>h'. fst (header_phase memmove_within debug h) = Some (Inr h')) =
     (hdr_text h \<noteq> None \<or> targets h \<noteq> [])) \<and>
   (hdr_text h = None \<and> targets h = [] \<longrightarrow> synthesize h = (h, [])) \<and>
   (hdr_text h = None \<and> targets h = [] \<and> 3 \<le> length argv \<and> argv ! 1 \<noteq> argv ! 2 \<and>
    open_input w argv = Some (h, recs) \<longrightarrow>
      ending (main w argv) = Faulted NullDereference)"
proof (intro conjI impI)
  show "(fst (header_phase overlapping debug h) = Some (Inl NullDereference)) =
      (hdr_text h = None \<and> targets h = [])"
    by (rule header_phase_fault)
  show "(\<exists>h'. fst (header_phase overlapping debug h) = Some (Inr h')) =
     ((hdr_text h \<noteq> None \<or> targets h \<noteq> []) \<and>
      fst (header_phase overlapping debug h) \<noteq> None)"
    by (rule header_phase_header)
  show "(\<exists>h'. fst (header_phase memmove_within debug h) = Some (Inr h')) =
     (hdr_text h \<noteq> None \<or> targets h \<noteq> [])"
    by (simp add: header_phase_header header_phase_memmove)
next
  assume "hdr_text h = None \<and> targets h = []"
  then show "synthesize h = (h, [])" by (simp add: synthesize_eq)
next
  assume a: "hdr_text h = None \<and> targets h = [] \<and> 3 \<le> length argv \<and> argv ! 1 \<noteq> argv ! 2 \<and>
    open_input w argv = Some (h, recs)"
  then have "fst (header_phase (strcpy_overlap w) (verbose argv) h) = Some (Inl NullDereference)"
    by (simp add: header_phase_fault)
  then have "ending (transcode w (argv ! 2) (verbose argv) h recs) = Faulted NullDereference"
    using transcode_fault by blast
  with a show "ending (main w argv) = Faulted NullDereference"
    by (simp add: main_opened)
qed

text \<open>The headerless world, run.\<close>

lemma headerless_open:
  "open_input headerless_world example_argv =
     Some (\<lparr>targets = [], hdr_text = None, l_text = 0\<rparr>, [])"
  by (simp add: headerless_world_def open_input_def case_prod_beta)

theorem absent_text_empty_table_faults_witness:
  "fst (header_phase memmove_within False \<lparr>targets = [], hdr_text = None, l_text = 0\<rparr>) =
     Some (Inl NullDereference) \<and>
   ending (main headerless_world example_argv) = Faulted NullDereference"
proof -
  let ?h = "\<lparr>targets = [], hdr_text = None, l_text = 0\<rparr>"
  have c: "hdr_text ?h = None \<and> targets ?h = [] \<and> 3 \<le> length example_argv \<and>
      example_argv ! 1 \<noteq> example_argv ! 2 \<and>
      open_input headerless_world example_argv = Some (?h, [])"
    using headerless_open by (simp add: example_argv_def)
  from absent_text_empty_table_faults
    [of memmove_within False ?h example_argv headerless_world "[]"] c
  show ?thesis by blast
qed

text \<open>
  Claim C10. Headers on which the table and the text part ways, each with one entry and a
  declaration line of that entry as its text. The entry named \<open>chr\<close> and the entry \<open>chrM\<close>
  of recorded length 3 stay in the table as they are, while the \<open>SN:\<close> field of the text
  loses its \<open>chr\<close>. In the first two headers the \<open>SN:\<close> field ends the line, at most two
  characters follow it, and the copy of line 80 is fixed by the C standard: these hold
  with every C library. In the last two the line is the one the program itself would write,
  \<open>SN:\<close> before \<open>LN:\<close>; there the regions of the copy overlap, and the result is stated for
  a library whose copy, at that call, leaves what \<^verbatim>\<open>memmove\<close> would.
\<close>

theorem table_and_text_disagree:
  "header_phase overlapping False
     \<lparr>targets = [\<lparr>target_name = ''chr'', target_len = 100\<rparr>],
      hdr_text = Some (''@SQ'' @ [TAB] @ ''LN:100'' @ [TAB] @ ''SN:chr'' @ [NL]),
      l_text = 18\<rparr> =
   (Some (Inr \<lparr>targets = [\<lparr>target_name = ''chr'', target_len = 100\<rparr>],
               hdr_text = Some (''@SQ'' @ [TAB] @ ''LN:100'' @ [TAB] @ ''SN:'' @ [NL]),
               l_text = 15\<rparr>), []) \<and>
   header_phase overlapping False
     \<lparr>targets = [\<lparr>target_name = ''chrM'', target_len = 3\<rparr>],
      hdr_text = Some (''@SQ'' @ [TAB] @ ''LN:3'' @ [TAB] @ ''SN:chrM'' @ [NL]),
      l_text = 17\<rparr> =
   (Some (Inr \<lparr>targets = [\<lparr>target_name = ''chrM'', target_len = 3\<rparr>],
               hdr_text = Some (''@SQ'' @ [TAB] @ ''LN:3'' @ [TAB] @ ''SN:M'' @ [NL]),
               l_text = 14\<rparr>), []) \<and>
   (overlapping (sq_line \<lparr>target_name = ''chr'', target_len = 100\<rparr>) 7 10 =
      memmove_within (sq_line \<lparr>target_name = ''chr'', target_len = 100\<rparr>) 7 10 \<longrightarrow>
    header_phase overlapping False
      \<lparr>targets = [\<lparr>target_name = ''chr'', target_len = 100\<rparr>],
       hdr_text = Some (sq_line \<lparr>target_name = ''chr'', target_len = 100\<rparr>), l_text = 18\<rparr> =
    (Some (Inr \<lparr>targets = [\<lparr>target_name = ''chr'', target_len = 100\<rparr>],
                hdr_text = Some (sq_line \<lparr>target_name = [], target_len = 100\<rparr>),
                l_text = 15\<rparr>), [])) \<and>
   (overlapping (sq_line \<lparr>target_name = ''chrM'', target_len = 3\<rparr>) 7 10 =
      memmove_within (sq_line \<lparr>target_name = ''chrM'', target_len = 3\<rparr>) 7 10 \<longrightarrow>
    header_phase overlapping False
      \<lparr>targets = [\<lparr>target_name = ''chrM'', target_len = 3\<rparr>],
       hdr_text = Some (sq_line \<lparr>target_name = ''chrM'', target_len = 3\<rparr>), l_text = 17\<rparr> =
    (Some (Inr \<lparr>targets = [\<lparr>target_name = ''chrM'', target_len = 3\<rparr>],
                hdr_text = Some (sq_line \<lparr>target_name = ''M'', target_len = 3\<rparr>),
                l_text = 14\<rparr>), [])) \<and>
   sq_line \<lparr>target_name = ''chr'', target_len = 100\<rparr> =
     ''@SQ'' @ [TAB] @ ''SN:chr'' @ [TAB] @ ''LN:100'' @ [NL] \<and>
   sq_line \<lparr>target_name = [], target_len = 100\<rparr> =
     ''@SQ'' @ [TAB] @ ''SN:'' @ [TAB] @ ''LN:100'' @ [NL]"
proof (intro conjI impI)
  show "header_phase overlapping False
     \<lparr>targets = [\<lparr>target_name = ''chr'', target_len = 100\<rparr>],
      hdr_text = Some (''@SQ'' @ [TAB] @ ''LN:100'' @ [TAB] @ ''SN:chr'' @ [NL]),
      l_text = 18\<rparr> =
   (Some (Inr \<lparr>targets = [\<lparr>target_name = ''chr'', target_len = 100\<rparr>],
               hdr_text = Some (''@SQ'' @ [TAB] @ ''LN:100'' @ [TAB] @ ''SN:'' @ [NL]),
               l_text = 15\<rparr>), [])"
    by (simp add: header_phase_def normalize_table_def normalize_loop.simps strip_chr_def
        synthesize_def n_targets_def rewrite_header_def sn_chr_loop.simps strcpy_within_def)
  show "header_phase overlapping False
     \<lparr>targets = [\<lparr>target_name = ''chrM'', target_len = 3\<rparr>],
      hdr_text = Some (''@SQ'' @ [TAB] @ ''LN:3'' @ [TAB] @ ''SN:chrM'' @ [NL]),
      l_text = 17\<rparr> =
   (Some (Inr \<lparr>targets = [\<lparr>target_name = ''chrM'', target_len = 3\<rparr>],
               hdr_text = Some (''@SQ'' @ [TAB] @ ''LN:3'' @ [TAB] @ ''SN:M'' @ [NL]),
               l_text = 14\<rparr>), [])"
    by (simp add: header_phase_def normalize_table_def normalize_loop.simps strip_chr_def
        synthesize_def n_targets_def rewrite_header_def sn_chr_loop.simps strcpy_within_def)
  show "sq_line \<lparr>target_name = ''chr'', target_len = 100\<rparr> =
     ''@SQ'' @ [TAB] @ ''SN:chr'' @ [TAB] @ ''LN:100'' @ [NL]"
    by (simp add: sq_line_def as_int32_def dec_int_def dec_nat.simps)
  show "sq_line \<lparr>target_name = [], target_len = 100\<rparr> =
     ''@SQ'' @ [TAB] @ ''SN:'' @ [TAB] @ ''LN:100'' @ [NL]"
    by (simp add: sq_line_def as_int32_def dec_int_def dec_nat.simps)
next
  assume "overlapping (sq_line \<lparr>target_name = ''chr'', target_len = 100\<rparr>) 7 10 =
      memmove_within (sq_line \<lparr>target_name = ''chr'', target_len = 100\<rparr>) 7 10"
  then show "header_phase overlapping False
      \<lparr>targets = [\<lparr>target_name = ''chr'', target_len = 100\<rparr>],
       hdr_text = Some (sq_line \<lparr>target_name = ''chr'', target_len = 100\<rparr>), l_text = 18\<rparr> =
    (Some (Inr \<lparr>targets = [\<lparr>target_name = ''chr'', target_len = 100\<rparr>],
                hdr_text = Some (sq_line \<lparr>target_name = [], target_len = 100\<rparr>),
                l_text = 15\<rparr>), [])"
    by (simp add: header_phase_def normalize_table_def normalize_loop.simps strip_chr_def
        synthesize_def n_targets_def rewrite_header_def sn_chr_loop.simps strcpy_within_def
        memmove_within_def sq_line_def as_int32_def dec_int_def dec_nat.simps)
next
  assume "overlapping (sq_line \<lparr>target_name = ''chrM'', target_len = 3\<rparr>) 7 10 =
      memmove_within (sq_line \<lparr>target_name = ''chrM'', target_len = 3\<rparr>) 7 10"
  then show "header_phase overlapping False
      \<lparr>targets = [\<lparr>target_name = ''chrM'', target_len = 3\<rparr>],
       hdr_text = Some (sq_line \<lparr>target_name = ''chrM'', target_len = 3\<rparr>), l_text = 17\<rparr> =
    (Some (Inr \<lparr>targets = [\<lparr>target_name = ''chrM'', target_len = 3\<rparr>],
                hdr_text = Some (sq_line \<lparr>target_name = ''M'', target_len = 3\<rparr>),
                l_text = 14\<rparr>), [])"
    by (simp add: header_phase_def normalize_table_def normalize_loop.simps strip_chr_def
        synthesize_def n_targets_def rewrite_header_def sn_chr_loop.simps strcpy_within_def
        memmove_within_def sq_line_def as_int32_def dec_int_def dec_nat.simps)
qed

text \<open>The last two headers with a library that copies as \<^verbatim>\<open>memmove\<close> does.\<close>

theorem table_and_text_disagree_witness:
  "header_phase memmove_within False
      \<lparr>targets = [\<lparr>target_name = ''chr'', target_len = 100\<rparr>],
       hdr_text = Some (sq_line \<lparr>target_name = ''chr'', target_len = 100\<rparr>), l_text = 18\<rparr> =
    (Some (Inr \<lparr>targets = [\<lparr>target_name = ''chr'', target_len = 100\<rparr>],
                hdr_text = Some (sq_line \<lparr>target_name = [], target_len = 100\<rparr>),
                l_text = 15\<rparr>), []) \<and>
   header_phase memmove_within False
      \<lparr>targets = [\<lparr>target_name = ''chrM'', target_len = 3\<rparr>],
       hdr_text = Some (sq_line \<lparr>target_name = ''chrM'', target_len = 3\<rparr>), l_text = 17\<rparr> =
    (Some (Inr \<lparr>targets = [\<lparr>target_name = ''chrM'', target_len = 3\<rparr>],
                hdr_text = Some (sq_line \<lparr>target_name = ''M'', target_len = 3\<rparr>),
                l_text = 14\<rparr>), [])"
  using table_and_text_disagree [of memmove_within] by blast

subsection \<open>The container format of the input\<close>

text \<open>Binary mode is chosen only for a path that ends in \<open>.bam\<close>, whatever the case.\<close>

lemma select_mode_binary_suffix:
  assumes "fst (select_mode path aux) = ''rb''"
  shows "suffix (map tolower ''.bam'') (map tolower path) \<and> snd (select_mode path aux) = None"
proof -
  from assms obtain i where i: "strcasestr path ''.bam'' = Some i"
    and c: "strcasecmp_eq (drop i path) ''.bam''"
    by (auto simp: select_mode_def split: option.splits if_splits)
  from c have "drop i (map tolower path) = map tolower ''.bam''"
    by (simp only: strcasecmp_eq_def drop_map)
  then have "suffix (map tolower ''.bam'') (map tolower path)"
    by (metis suffix_drop)
  moreover have "snd (select_mode path aux) = None"
    using i c by (simp add: select_mode_def)
  ultimately show ?thesis by blast
qed

text \<open>
  Claim C7. A path that selects the binary container ends in \<open>.bam\<close>, in any case of the
  letters, and loses the auxiliary path. The converse fails: line 31 finds the first
  \<open>.bam\<close> of the path and line 32 compares everything after it, so the path
  \<open>reads.bam.sorted.bam\<close>, which ends in \<open>.bam\<close>, is opened in text mode with the
  auxiliary path kept.
\<close>

text \<open>
  Claim C7. A path that selects the binary container ends in \<open>.bam\<close>, in any case of the
  letters, and loses the auxiliary path. The converse fails: line 31 finds the first
  \<open>.bam\<close> of the path and line 32 compares everything after it, so the path
  \<open>reads.bam.sorted.bam\<close>, which ends in \<open>.bam\<close>, is opened in text mode with the
  auxiliary path kept.
\<close>

theorem select_mode_first_occurrence:
  "(fst (select_mode path aux) = ''rb'' \<longrightarrow>
      suffix (map tolower ''.bam'') (map tolower path) \<and> snd (select_mode path aux) = None) \<and>
   suffix (map tolower ''.bam'') (map tolower ''reads.bam.sorted.bam'') \<and>
   select_mode ''reads.bam.sorted.bam'' aux = (''r'', aux)"
proof (intro conjI impI)
  assume "fst (select_mode path aux) = ''rb''"
  then show "suffix (map tolower ''.bam'') (map tolower path)"
    and "snd (select_mode path aux) = None"
    using select_mode_binary_suffix by blast+
next
  have "map tolower ''reads.bam.sorted.bam'' = map tolower ''reads.bam.sorted'' @ map tolower ''.bam''"
    by simp
  then show "suffix (map tolower ''.bam'') (map tolower ''reads.bam.sorted.bam'')"
    by (metis suffixI)
next
  show "select_mode ''reads.bam.sorted.bam'' aux = (''r'', aux)"
    by (simp add: select_mode_def strcasestr_def strcasecmp_eq_def tolower_def)
qed

text \<open>The path \<open>reads.BAM\<close> selects the binary container.\<close>

text \<open>The path \<open>reads.BAM\<close> selects the binary container.\<close>

theorem select_mode_first_occurrence_witness:
  "fst (select_mode ''reads.BAM'' (Some ''ref.fa.fai'')) = ''rb'' \<and>
   suffix (map tolower ''.bam'') (map tolower ''reads.BAM'') \<and>
   snd (select_mode ''reads.BAM'' (Some ''ref.fa.fai'')) = None"
proof -
  have "fst (select_mode ''reads.BAM'' (Some ''ref.fa.fai'')) = ''rb''"
    by (simp add: select_mode_def strcasestr_def strcasecmp_eq_def tolower_def)
  with select_mode_first_occurrence [of "''reads.BAM''" "Some ''ref.fa.fai''"]
  show ?thesis by blast
qed

subsection \<open>The container handles\<close>

text \<open>
  Claim C8. A run that returns 0 has closed both containers. Every other run that got as
  far as opening the input leaves the input container open: the return of line 95, the
  fault of line 78 and a loop of lines 79--81 that does not return all come before the
  only two \<^verbatim>\<open>samclose\<close> calls of the program, those of lines 108 and 109.
\<close>

theorem early_exit_leaves_input_open:
  "(ending (main w argv) = Returned 0 \<longrightarrow>
      infp (main w argv) = Closed \<and> outfp (main w argv) = Closed) \<and>
   (3 \<le> length argv \<and> argv ! 1 \<noteq> argv ! 2 \<and> open_input w argv \<noteq> None \<and>
    ending (main w argv) \<noteq> Returned 0 \<longrightarrow>
      infp (main w argv) = Opened)"
proof (intro conjI impI)
  assume ok: "ending (main w argv) = Returned 0"
  then obtain h0 recs where "main w argv = transcode w (argv ! 2) (verbose argv) h0 recs"
    using main_success by blast
  with ok transcode_handles [of w "argv ! 2" "verbose argv" h0 recs]
  show "infp (main w argv) = Closed" and "outfp (main w argv) = Closed"
    by simp_all
next
  assume a: "3 \<le> length argv \<and> argv ! 1 \<noteq> argv ! 2 \<and> open_input w argv \<noteq> None \<and>
    ending (main w argv) \<noteq> Returned 0"
  then obtain h0 recs where "open_input w argv = Some (h0, recs)" by auto
  with a have "main w argv = transcode w (argv ! 2) (verbose argv) h0 recs"
    by (simp add: main_opened)
  with a transcode_handles [of w "argv ! 2" "verbose argv" h0 recs]
  show "infp (main w argv) = Opened" by simp
qed

text \<open>
  The example world with an output that cannot be opened: the run returns 1 and the
  input container stays open; in the example world itself both are closed.
\<close>

text \<open>
  The example world with an output that cannot be opened: the run returns 1 and the
  input container stays open; in the example world itself both are closed.
\<close>

lemma readonly_open:
  "open_input readonly_world example_argv = Some (example_header, example_records)"
  by (simp add: readonly_world_def example_world_def example_argv_def open_input_def
      select_mode_def strcasestr_def tolower_def)

lemma readonly_main:
  "main readonly_world example_argv =
     transcode readonly_world ''out.bam'' False example_header example_records"
  using readonly_open by (simp add: main_def verbose_def) (simp add: example_argv_def)

theorem early_exit_leaves_input_open_witness:
  "ending (main readonly_world example_argv) = Returned 1 \<and>
   open_input readonly_world example_argv = Some (example_header, example_records) \<and>
   infp (main readonly_world example_argv) = Opened \<and>
   infp (main example_world example_argv) = Closed \<and>
   outfp (main example_world example_argv) = Closed"
proof -
  have e: "ending (main readonly_world example_argv) = Returned 1"
    by (simp add: readonly_main transcode_def example_phase)
       (simp add: readonly_world_def example_world_def)
  have c: "3 \<le> length example_argv \<and> example_argv ! 1 \<noteq> example_argv ! 2 \<and>
      open_input readonly_world example_argv \<noteq> None \<and>
      ending (main readonly_world example_argv) \<noteq> Returned 0"
    using e readonly_open by (simp add: example_argv_def)
  from early_exit_leaves_input_open [of readonly_world example_argv] c
  have "infp (main readonly_world example_argv) = Opened" by blast
  moreover from early_exit_leaves_input_open [of example_world example_argv] example_ending
  have "infp (main example_world example_argv) = Closed \<and>
      outfp (main example_world example_argv) = Closed" by blast
  ultimately show ?thesis using e readonly_open by simp
qed

end
